theory Spec2Isabelle
  imports Complex_Main "HOL-Library.Word"
begin

section \<open>Whitespace detection and cut-point selection (src/lib/whitespaceDetector.ts)\<close>

text \<open>
  The detector works on JavaScript numbers. Row indices, heights and widths are
  non-negative integers (\<open>nat\<close>); channel values of the \<open>Uint8ClampedArray\<close> are
  bytes (\<open>8 word\<close>); every other quantity (brightness, thresholds, centres, scores,
  the target slice height) is a \<open>real\<close>, that is, the arithmetic of the source is
  taken exactly, without the rounding of IEEE doubles. For a target slice height that is a
  whole number this is what the source computes: the positions \<open>k * T\<close> and the centres
  (whole or half numbers) are exact doubles, \<open>T * 0.5\<close> is exact, and the double product
  \<open>T * 0.3\<close> is the real one when that is a whole or half number and otherwise lies, like
  the real one, at least \<open>0.1\<close> minus a rounding error away from the whole and half
  numbers that decide the comparisons with it.
  For a fractional target the double sum \<open>current += targetHeight\<close> and the double product
  \<open>T * 0.3\<close> can be one unit in the last place away from the real values, which can move a
  cut or decide a comparison the other way; the general statements below about the cuts
  selected are therefore made for whole targets. The only \<open>NaN\<close> the source can
  produce on a well-typed buffer (a channel read past the end of the data, and \<open>0 / 0\<close>
  for a buffer of width 0) is modelled as \<open>None\<close>; every comparison with it is false,
  as in JavaScript.
\<close>

subsection \<open>Data model\<close>

record WhitespaceGap =
  startY :: nat
  endY :: nat
  height :: nat
  centerY :: real
  score :: real

record DetectionConfig =
  whitespaceThreshold :: real
  minGapHeight :: real
  edgeMargin :: real
  centerBias :: real

text \<open>\<open>Partial<DetectionConfig>\<close>: every field may be absent.\<close>

record PartialDetectionConfig =
  whitespaceThreshold_opt :: "real option"
  minGapHeight_opt :: "real option"
  edgeMargin_opt :: "real option"
  centerBias_opt :: "real option"

text \<open>
  The buffer \<open>ImageData\<close>. Its field \<open>height\<close> is \<open>height_px\<close> here, since the gap record
  has a field \<open>height\<close> already.
\<close>

record ImageData =
  width :: nat
  height_px :: nat
  data :: "8 word list"

definition DEFAULT_CONFIG :: DetectionConfig where
  "DEFAULT_CONFIG =
     \<lparr>whitespaceThreshold = 0.95, minGapHeight = 15, edgeMargin = 50, centerBias = 0.2\<rparr>"

text \<open>The empty object \<open>{}\<close>, the default value of the parameter \<open>config\<close>.\<close>

definition no_overrides :: PartialDetectionConfig where
  "no_overrides =
     \<lparr>whitespaceThreshold_opt = None, minGapHeight_opt = None,
      edgeMargin_opt = None, centerBias_opt = None\<rparr>"

text \<open>The spread \<open>{ ...DEFAULT_CONFIG, ...config }\<close>: a field of \<open>config\<close> that is present wins.\<close>

definition mergeConfig :: "DetectionConfig \<Rightarrow> PartialDetectionConfig \<Rightarrow> DetectionConfig" where
  "mergeConfig d c =
     \<lparr>whitespaceThreshold =
        (case whitespaceThreshold_opt c of None \<Rightarrow> whitespaceThreshold d | Some v \<Rightarrow> v),
      minGapHeight = (case minGapHeight_opt c of None \<Rightarrow> minGapHeight d | Some v \<Rightarrow> v),
      edgeMargin = (case edgeMargin_opt c of None \<Rightarrow> edgeMargin d | Some v \<Rightarrow> v),
      centerBias = (case centerBias_opt c of None \<Rightarrow> centerBias d | Some v \<Rightarrow> v)\<rparr>"

text \<open>\<open>Math.round\<close>: the nearest integer, a tie going towards plus infinity.\<close>

definition Math_round :: "real \<Rightarrow> int" where
  "Math_round x = \<lfloor>x + 1 / 2\<rfloor>"

subsection \<open>Row classification\<close>

text \<open>
  \<open>(r + g + b) / 3 / 255\<close> for the pixel whose red channel is at \<open>idx\<close>. A channel read
  past the end of the array is \<open>undefined\<close> and the sum is \<open>NaN\<close>: \<open>None\<close>.
\<close>

definition brightnessAt :: "8 word list \<Rightarrow> nat \<Rightarrow> real option" where
  "brightnessAt d idx =
     (if idx + 2 < length d
      then Some (real (unat (d ! idx) + unat (d ! (idx + 1)) + unat (d ! (idx + 2))) / 3 / 255)
      else None)"

text \<open>The test \<open>brightness > 0.9\<close> of the loop body; false for \<open>NaN\<close>.\<close>

definition isWhitePx :: "ImageData \<Rightarrow> nat \<Rightarrow> nat \<Rightarrow> bool" where
  "isWhitePx imageData y x =
     (let rowStart = y * width imageData * 4; idx = rowStart + x * 4
      in case brightnessAt (data imageData) idx of None \<Rightarrow> False | Some brightness \<Rightarrow> brightness > 0.9)"

text \<open>\<open>analyzeRow\<close>: the fraction of white pixels of row \<open>y\<close>; \<open>0 / 0\<close> is \<open>NaN\<close>.\<close>

definition analyzeRow :: "ImageData \<Rightarrow> nat \<Rightarrow> real option" where
  "analyzeRow imageData y =
     (let whitePx = fold (\<lambda>x n. if isWhitePx imageData y x then n + 1 else n)
                      [0..<width imageData] (0::nat)
      in if width imageData = 0 then None else Some (real whitePx / real (width imageData)))"

definition detectWhitespaceRows :: "ImageData \<Rightarrow> DetectionConfig \<Rightarrow> bool list" where
  "detectWhitespaceRows imageData config =
     map (\<lambda>y. case analyzeRow imageData y of
                 None \<Rightarrow> False
               | Some brightnessRatio \<Rightarrow> brightnessRatio \<ge> whitespaceThreshold config)
       [0..<height_px imageData]"

subsection \<open>Gap formation\<close>

text \<open>The object pushed for the run of rows \<open>gapStart, ..., y - 1\<close>.\<close>

definition mkGap :: "nat \<Rightarrow> DetectionConfig \<Rightarrow> nat \<Rightarrow> nat \<Rightarrow> WhitespaceGap" where
  "mkGap pageHeight config gapStart y =
     (let gapHeight = y - gapStart;
          centerY = real gapStart + real gapHeight / 2;
          sizeScore = min (real gapHeight / 50) 1;
          normalizedY = centerY / real pageHeight;
          centerScore = 1 - \<bar>normalizedY - 0.5\<bar> * centerBias config
      in \<lparr>startY = gapStart, endY = y, height = gapHeight, centerY = centerY,
          score = sizeScore * centerScore\<rparr>)"

text \<open>The two nested tests that guard \<open>gaps.push\<close>.\<close>

definition gapQualifies :: "nat \<Rightarrow> DetectionConfig \<Rightarrow> nat \<Rightarrow> nat \<Rightarrow> bool" where
  "gapQualifies pageHeight config gapStart y =
     (let gapHeight = y - gapStart
      in real gapHeight \<ge> minGapHeight config \<and>
         (let centerY = real gapStart + real gapHeight / 2
          in centerY > edgeMargin config \<and> centerY < real pageHeight - edgeMargin config))"

text \<open>One iteration of the loop of \<open>findGaps\<close> on the state \<open>(gaps, gapStart)\<close>.\<close>

definition findGaps_step ::
  "bool list \<Rightarrow> nat \<Rightarrow> DetectionConfig \<Rightarrow> nat \<Rightarrow> WhitespaceGap list \<times> nat option
     \<Rightarrow> WhitespaceGap list \<times> nat option" where
  "findGaps_step whitespaceRows pageHeight config y st =
     (case st of (gaps, gapStart) \<Rightarrow>
        if whitespaceRows ! y
        then (case gapStart of None \<Rightarrow> (gaps, Some y) | Some s \<Rightarrow> (gaps, Some s))
        else (case gapStart of
                None \<Rightarrow> (gaps, None)
              | Some s \<Rightarrow>
                  (if gapQualifies pageHeight config s y
                   then gaps @ [mkGap pageHeight config s y] else gaps, None)))"

definition findGaps :: "bool list \<Rightarrow> nat \<Rightarrow> DetectionConfig \<Rightarrow> WhitespaceGap list" where
  "findGaps whitespaceRows pageHeight config =
     fst (fold (findGaps_step whitespaceRows pageHeight config)
            [0..<length whitespaceRows] ([], None))"

text \<open>
  The detector as \<open>findCutPoints\<close> runs it: the rows of the buffer are classified and the
  gaps are formed with the buffer's own height as the page height.
\<close>

definition detectGaps :: "ImageData \<Rightarrow> DetectionConfig \<Rightarrow> WhitespaceGap list" where
  "detectGaps imageData config =
     findGaps (detectWhitespaceRows imageData config) (height_px imageData) config"

subsection \<open>Cut-point selection\<close>

text \<open>
  The loop of \<open>generateEvenCuts\<close>. It has no bound of its own, so it is a partial
  function: \<open>None\<close> is the loop that never ends. The sum \<open>current + targetHeight\<close> and
  the product \<open>targetHeight * 0.3\<close> are the real ones; they agree with the doubles of the
  source when \<open>targetHeight\<close> is a whole number.
\<close>

partial_function (option) generateEvenCuts_loop ::
  "nat \<Rightarrow> real \<Rightarrow> int list \<Rightarrow> real \<Rightarrow> int list option" where
  "generateEvenCuts_loop imgHeight targetHeight cuts current =
     (if current < real imgHeight - targetHeight * 0.3
      then generateEvenCuts_loop imgHeight targetHeight (cuts @ [Math_round current])
             (current + targetHeight)
      else Some cuts)"

definition generateEvenCuts :: "nat \<Rightarrow> real \<Rightarrow> int list option" where
  "generateEvenCuts imgHeight targetHeight =
     (case generateEvenCuts_loop imgHeight targetHeight [0] targetHeight of
        None \<Rightarrow> None
      | Some cuts \<Rightarrow> Some (cuts @ [int imgHeight]))"

text \<open>Which arm of the \<open>if\<close> / \<open>else if\<close> in the loop over the sorted gaps is taken.\<close>

datatype branch = PrimaryAccept | ForcedAccept | Skip

definition cutBranch :: "real \<Rightarrow> real \<Rightarrow> WhitespaceGap \<Rightarrow> branch" where
  "cutBranch targetSliceHeight lastCut gap =
     (let distanceFromLastCut = centerY gap - lastCut
      in if distanceFromLastCut \<ge> targetSliceHeight * 0.5 then PrimaryAccept
         else if distanceFromLastCut \<ge> targetSliceHeight * 1.0 \<and> score gap > 0.2
         then ForcedAccept
         else Skip)"

text \<open>One iteration of that loop on the state \<open>(cutPoints, lastCut)\<close>.\<close>

definition cutStep :: "real \<Rightarrow> WhitespaceGap \<Rightarrow> int list \<times> real \<Rightarrow> int list \<times> real" where
  "cutStep targetSliceHeight gap st =
     (case st of (cutPoints, lastCut) \<Rightarrow>
        (case cutBranch targetSliceHeight lastCut gap of
           PrimaryAccept \<Rightarrow> (cutPoints @ [Math_round (centerY gap)], centerY gap)
         | ForcedAccept \<Rightarrow> (cutPoints @ [Math_round (centerY gap)], centerY gap)
         | Skip \<Rightarrow> (cutPoints, lastCut)))"

text \<open>
  The part of \<open>findCutPoints\<close> after the test for an empty gap list. The sort is stable
  and compares \<open>centerY\<close> only. \<open>cutPoints\<close> is never empty, so the index
  \<open>cutPoints.length - 1\<close> of the final assignment exists. The product
  \<open>targetSliceHeight * 0.3\<close> of the final test is the real one; the test agrees with the
  source's when \<open>targetSliceHeight\<close> is a whole number.
\<close>

definition selectFromGaps :: "nat \<Rightarrow> real \<Rightarrow> WhitespaceGap list \<Rightarrow> int list" where
  "selectFromGaps imgHeight targetSliceHeight gaps =
     (let sortedGaps = sort_key centerY gaps
      in case fold (cutStep targetSliceHeight) sortedGaps ([0], 0) of
           (cutPoints, lastCut) \<Rightarrow>
             if real imgHeight - lastCut > targetSliceHeight * 0.3
             then cutPoints @ [int imgHeight]
             else cutPoints[length cutPoints - 1 := int imgHeight])"

definition findCutPoints :: "ImageData \<Rightarrow> real \<Rightarrow> PartialDetectionConfig \<Rightarrow> int list option" where
  "findCutPoints imageData targetSliceHeight config =
     (let mergedConfig = mergeConfig DEFAULT_CONFIG config;
          imgHeight = height_px imageData;
          whitespaceRows = detectWhitespaceRows imageData mergedConfig;
          gaps = findGaps whitespaceRows imgHeight mergedConfig
      in if length gaps = 0
         then generateEvenCuts imgHeight targetSliceHeight
         else Some (selectFromGaps imgHeight targetSliceHeight gaps))"

subsection \<open>Runs of whitespace rows\<close>

text \<open>
  The state \<open>(gaps, gapStart)\<close> of the loop of \<open>findGaps\<close> after the rows \<open>0, ..., n - 1\<close>.
\<close>

definition scanRows ::
  "bool list \<Rightarrow> nat \<Rightarrow> DetectionConfig \<Rightarrow> nat \<Rightarrow> WhitespaceGap list \<times> nat option" where
  "scanRows whitespaceRows pageHeight config n =
     fold (findGaps_step whitespaceRows pageHeight config) [0..<n] ([], None)"

text \<open>
  The rows \<open>s, ..., e - 1\<close> are a maximal run of whitespace rows: all of them are whitespace,
  the row before (if any) and the row after (if any) are not.
\<close>

definition maximalRun :: "bool list \<Rightarrow> nat \<Rightarrow> nat \<Rightarrow> bool" where
  "maximalRun rows s e =
     (s < e \<and> e \<le> length rows \<and> (\<forall>i\<in>{s..<e}. rows ! i) \<and>
      (s = 0 \<or> \<not> rows ! (s - 1)) \<and> (e = length rows \<or> \<not> rows ! e))"

text \<open>A maximal run that a non-whitespace row \<open>e\<close> terminates.\<close>

definition isRun :: "bool list \<Rightarrow> nat \<Rightarrow> nat \<Rightarrow> bool" where
  "isRun rows s e =
     (s < e \<and> e < length rows \<and> (\<forall>i\<in>{s..<e}. rows ! i) \<and> \<not> rows ! e \<and>
      (s = 0 \<or> \<not> rows ! (s - 1)))"

text \<open>What \<open>gapStart\<close> records after the rows \<open>0, ..., n - 1\<close>: the start of the run that is open.\<close>

definition openRun :: "bool list \<Rightarrow> nat \<Rightarrow> nat option \<Rightarrow> bool" where
  "openRun rows n gs =
     (case gs of
        None \<Rightarrow> n = 0 \<or> \<not> rows ! (n - 1)
      | Some s \<Rightarrow> s < n \<and> (\<forall>i\<in>{s..<n}. rows ! i) \<and> (s = 0 \<or> \<not> rows ! (s - 1)))"

subsection \<open>Test pages\<close>

text \<open>
  A buffer of width \<open>w\<close> and height \<open>h\<close> in which every pixel of row \<open>y\<close> is opaque white
  when \<open>white y\<close> holds and opaque black otherwise.
\<close>

definition solidRows :: "nat \<Rightarrow> nat \<Rightarrow> (nat \<Rightarrow> bool) \<Rightarrow> ImageData" where
  "solidRows w h white =
     \<lparr>width = w, height_px = h,
      data = concat (map (\<lambda>i. if white (i div w) then [255, 255, 255, 255] else [0, 0, 0, 255])
                      [0..<h * w])\<rparr>"

text \<open>Pages one pixel wide: all black, all white, one white band, two white bands.\<close>

definition darkPage :: "nat \<Rightarrow> ImageData" where
  "darkPage h = solidRows 1 h (\<lambda>y. False)"

definition whitePage :: "nat \<Rightarrow> ImageData" where
  "whitePage h = solidRows 1 h (\<lambda>y. True)"

definition bandPage :: "nat \<Rightarrow> nat \<Rightarrow> nat \<Rightarrow> ImageData" where
  "bandPage h a b = solidRows 1 h (\<lambda>y. a \<le> y \<and> y < b)"

definition twoBandPage :: "nat \<Rightarrow> nat \<Rightarrow> nat \<Rightarrow> nat \<Rightarrow> nat \<Rightarrow> ImageData" where
  "twoBandPage h a b c d = solidRows 1 h (\<lambda>y. a \<le> y \<and> y < b \<or> c \<le> y \<and> y < d)"

text \<open>Row classifications with one and with two runs of whitespace rows.\<close>

definition bandRows :: "nat \<Rightarrow> nat \<Rightarrow> nat \<Rightarrow> bool list" where
  "bandRows h a b = map (\<lambda>y. a \<le> y \<and> y < b) [0..<h]"

definition twoBandRows :: "nat \<Rightarrow> nat \<Rightarrow> nat \<Rightarrow> nat \<Rightarrow> nat \<Rightarrow> bool list" where
  "twoBandRows h a b c d = map (\<lambda>y. a \<le> y \<and> y < b \<or> c \<le> y \<and> y < d) [0..<h]"

text \<open>The overrides \<open>{ minGapHeight: 0, edgeMargin: 0, centerBias: 10 }\<close>.\<close>

definition strongBias :: PartialDetectionConfig where
  "strongBias =
     \<lparr>whitespaceThreshold_opt = None, minGapHeight_opt = Some 0,
      edgeMargin_opt = Some 0, centerBias_opt = Some 10\<rparr>"

section \<open>Lemmas\<close>

subsection \<open>The loop of the gap detector\<close>

lemma scanRows_0: "scanRows rows H cfg 0 = ([], None)"
  by (simp add: scanRows_def)

lemma scanRows_Suc:
  "scanRows rows H cfg (Suc n) = findGaps_step rows H cfg n (scanRows rows H cfg n)"
  by (simp add: scanRows_def)

lemma findGaps_scanRows: "findGaps rows H cfg = fst (scanRows rows H cfg (length rows))"
  by (simp add: findGaps_def scanRows_def)

lemma scanRows_openRun: "openRun rows n (snd (scanRows rows H cfg n))"
proof (induction n)
  case 0
  show ?case by (simp add: scanRows_0 openRun_def)
next
  case (Suc n)
  obtain gaps gs where st: "scanRows rows H cfg n = (gaps, gs)" by (cases "scanRows rows H cfg n")
  with Suc have inv: "openRun rows n gs" by simp
  show ?case
  proof (cases "rows ! n")
    case True
    then show ?thesis using inv st
      by (cases gs) (auto simp: scanRows_Suc findGaps_step_def openRun_def less_Suc_eq)
  next
    case False
    then show ?thesis using st
      by (cases gs) (auto simp: scanRows_Suc findGaps_step_def openRun_def)
  qed
qed

lemma scanRows_sound:
  "g \<in> set (fst (scanRows rows H cfg n)) \<Longrightarrow> n \<le> length rows \<Longrightarrow>
     \<exists>s e. g = mkGap H cfg s e \<and> isRun rows s e \<and> e < n \<and> gapQualifies H cfg s e"
proof (induction n)
  case 0
  then show ?case by (simp add: scanRows_0)
next
  case (Suc n)
  obtain gaps gs where st: "scanRows rows H cfg n = (gaps, gs)" by (cases "scanRows rows H cfg n")
  have inv: "openRun rows n gs" using scanRows_openRun [of rows n H cfg] st by simp
  show ?case
  proof (cases "g \<in> set gaps")
    case True
    then have "\<exists>s e. g = mkGap H cfg s e \<and> isRun rows s e \<and> e < n \<and> gapQualifies H cfg s e"
      using Suc st by simp
    then show ?thesis using less_Suc_eq by blast
  next
    case False
    with Suc.prems(1) st obtain s where
      gs: "gs = Some s" and r: "\<not> rows ! n" and q: "gapQualifies H cfg s n"
      and g: "g = mkGap H cfg s n"
      by (auto simp: scanRows_Suc findGaps_step_def split: if_splits option.splits)
    have "isRun rows s n" using inv gs r Suc.prems(2) by (auto simp: openRun_def isRun_def)
    then show ?thesis using g q by blast
  qed
qed




lemma findGaps_sound:
  "g \<in> set (findGaps rows H cfg) \<Longrightarrow>
     \<exists>s e. g = mkGap H cfg s e \<and> isRun rows s e \<and> gapQualifies H cfg s e"
  using scanRows_sound [of g rows H cfg "length rows"] by (auto simp: findGaps_scanRows)



lemma mkGap_sel [simp]:
  "startY (mkGap H cfg s e) = s" "endY (mkGap H cfg s e) = e"
  "height (mkGap H cfg s e) = e - s"
  "centerY (mkGap H cfg s e) = real s + real (e - s) / 2"
  "score (mkGap H cfg s e) =
     min (real (e - s) / 50) 1 *
     (1 - \<bar>(real s + real (e - s) / 2) / real H - 0.5\<bar> * centerBias cfg)"
  by (simp_all add: mkGap_def Let_def)

lemma gap_meets_run:
  assumes g: "g \<in> set (findGaps rows H cfg)" and m: "maximalRun rows s e"
    and o1: "startY g < e" and o2: "s < endY g"
  shows "g = mkGap H cfg s e \<and> gapQualifies H cfg s e \<and> e < length rows"
proof -
  from findGaps_sound [OF g] obtain s' e' where
    g': "g = mkGap H cfg s' e'" and r: "isRun rows s' e'" and q: "gapQualifies H cfg s' e'"
    by blast
  from o1 o2 g' have o: "s' < e" "s < e'" by simp_all
  from r have r': "s' < e'" "e' < length rows" "\<forall>i\<in>{s'..<e'}. rows ! i" "\<not> rows ! e'"
    "s' = 0 \<or> \<not> rows ! (s' - 1)" by (auto simp: isRun_def)
  from m have m': "s < e" "e \<le> length rows" "\<forall>i\<in>{s..<e}. rows ! i"
    "s = 0 \<or> \<not> rows ! (s - 1)" "e = length rows \<or> \<not> rows ! e" by (auto simp: maximalRun_def)
  have s: "s' = s"
  proof (rule ccontr)
    assume ne: "s' \<noteq> s"
    show False
    proof (cases "s' < s")
      case True
      then have "s - 1 \<in> {s'..<e'}" using o by auto
      then have "rows ! (s - 1)" using r'(3) by blast
      then show False using m'(4) True by auto
    next
      case False
      then have lt: "s < s'" using ne by simp
      then have "s' - 1 \<in> {s..<e}" using o by auto
      then have "rows ! (s' - 1)" using m'(3) by blast
      then show False using r'(5) lt by auto
    qed
  qed
  have e: "e' = e"
  proof (rule ccontr)
    assume ne: "e' \<noteq> e"
    show False
    proof (cases "e' < e")
      case True
      then have "e' \<in> {s..<e}" using o by auto
      then show False using m'(3) r'(4) by blast
    next
      case False
      then have lt: "e < e'" using ne by simp
      then have "e \<in> {s'..<e'}" using o by auto
      then have "rows ! e" using r'(3) by blast
      then show False using m'(5) lt r'(2) by auto
    qed
  qed
  show ?thesis using g' q r'(2) s e by simp
qed

lemma run_not_in_gaps:
  assumes "maximalRun rows s e" and "\<not> (gapQualifies H cfg s e \<and> e < length rows)"
  shows "\<forall>g\<in>set (findGaps rows H cfg). endY g \<le> s \<or> e \<le> startY g"
proof
  fix g assume g: "g \<in> set (findGaps rows H cfg)"
  show "endY g \<le> s \<or> e \<le> startY g"
  proof (rule ccontr)
    assume "\<not> (endY g \<le> s \<or> e \<le> startY g)"
    then have "startY g < e" "s < endY g" by simp_all
    from gap_meets_run [OF g assms(1) this] assms(2) show False by simp
  qed
qed

lemma findGaps_uniform:
  assumes "\<forall>i<length rows. rows ! i = b"
  shows "findGaps rows H cfg = []"
proof (rule ccontr)
  assume "findGaps rows H cfg \<noteq> []"
  then obtain g where "g \<in> set (findGaps rows H cfg)" by (cases "findGaps rows H cfg") auto
  from findGaps_sound [OF this] obtain s e where r: "isRun rows s e" by blast
  then have "rows ! s" "\<not> rows ! e" "s < length rows" "e < length rows"
    by (auto simp: isRun_def)
  then show False using assms by auto
qed

text \<open>Scanning a stretch of rows of one kind.\<close>

lemma fold_step_white:
  "\<forall>i\<in>{a..<a + Suc k}. rows ! i \<Longrightarrow>
     fold (findGaps_step rows H cfg) [a..<a + Suc k] (gaps, gs) =
       (gaps, Some (case gs of None \<Rightarrow> a | Some s \<Rightarrow> s))"
proof (induction k)
  case 0
  then show ?case by (simp add: findGaps_step_def split: option.splits)
next
  case (Suc k)
  then have "rows ! (a + Suc k)" by simp
  moreover have "\<forall>i\<in>{a..<a + Suc k}. rows ! i" using Suc.prems by simp
  ultimately show ?case using Suc.IH
    by (simp add: findGaps_step_def)
qed

lemma fold_step_dark:
  "\<forall>i\<in>{a..<a + Suc k}. \<not> rows ! i \<Longrightarrow>
     fold (findGaps_step rows H cfg) [a..<a + Suc k] (gaps, gs) =
       (case gs of
          None \<Rightarrow> gaps
        | Some s \<Rightarrow> if gapQualifies H cfg s a then gaps @ [mkGap H cfg s a] else gaps, None)"
proof (induction k)
  case 0
  then show ?case by (simp add: findGaps_step_def split: option.splits)
next
  case (Suc k)
  then have "\<not> rows ! (a + Suc k)" by simp
  moreover have "\<forall>i\<in>{a..<a + Suc k}. \<not> rows ! i" using Suc.prems by simp
  ultimately show ?case using Suc.IH
    by (simp add: findGaps_step_def)
qed

lemma fold_step_white':
  "a < b \<Longrightarrow> \<forall>i\<in>{a..<b}. rows ! i \<Longrightarrow>
     fold (findGaps_step rows H cfg) [a..<b] (gaps, gs) =
       (gaps, Some (case gs of None \<Rightarrow> a | Some s \<Rightarrow> s))"
  using fold_step_white [where a = a and k = "b - a - 1"] by simp

lemma fold_step_dark':
  "a < b \<Longrightarrow> \<forall>i\<in>{a..<b}. \<not> rows ! i \<Longrightarrow>
     fold (findGaps_step rows H cfg) [a..<b] (gaps, gs) =
       (case gs of
          None \<Rightarrow> gaps
        | Some s \<Rightarrow> if gapQualifies H cfg s a then gaps @ [mkGap H cfg s a] else gaps, None)"
  using fold_step_dark [where a = a and k = "b - a - 1"] by simp

lemma upt_split: "a \<le> b \<Longrightarrow> b \<le> c \<Longrightarrow> [a..<c] = [a..<b] @ [b..<c]"
  using upt_add_eq_append [of a b "c - b"] by simp

lemma findGaps_one_band:
  assumes "length rows = n" and "0 < a" and "a < b" and "b < n"
    and "\<forall>i<n. rows ! i = (a \<le> i \<and> i < b)"
  shows "findGaps rows H cfg = (if gapQualifies H cfg a b then [mkGap H cfg a b] else [])"
proof -
  have s: "[0..<n] = [0..<a] @ [a..<b] @ [b..<n]"
    using assms upt_split [of 0 a n] upt_split [of a b n] by simp
  have 1: "\<forall>i\<in>{0..<a}. \<not> rows ! i" using assms by auto
  have 2: "\<forall>i\<in>{a..<b}. rows ! i" using assms by auto
  have 3: "\<forall>i\<in>{b..<n}. \<not> rows ! i" using assms by auto
  show ?thesis
    using assms(1-4)
    by (simp add: findGaps_def s fold_step_dark' [OF _ 1] fold_step_white' [OF _ 2]
        fold_step_dark' [OF _ 3])
qed

lemma findGaps_two_bands:
  assumes "length rows = n" and "0 < a" and "a < b" and "b < c" and "c < d" and "d < n"
    and "\<forall>i<n. rows ! i = (a \<le> i \<and> i < b \<or> c \<le> i \<and> i < d)"
  shows "findGaps rows H cfg =
           (if gapQualifies H cfg a b then [mkGap H cfg a b] else []) @
           (if gapQualifies H cfg c d then [mkGap H cfg c d] else [])"
proof -
  have s: "[0..<n] = [0..<a] @ [a..<b] @ [b..<c] @ [c..<d] @ [d..<n]"
    using assms upt_split [of 0 a n] upt_split [of a b n] upt_split [of b c n]
      upt_split [of c d n] by simp
  have 1: "\<forall>i\<in>{0..<a}. \<not> rows ! i" using assms by auto
  have 2: "\<forall>i\<in>{a..<b}. rows ! i" using assms by auto
  have 3: "\<forall>i\<in>{b..<c}. \<not> rows ! i" using assms by auto
  have 4: "\<forall>i\<in>{c..<d}. rows ! i" using assms by auto
  have 5: "\<forall>i\<in>{d..<n}. \<not> rows ! i" using assms by auto
  show ?thesis
    using assms(1-6)
    by (simp add: findGaps_def s fold_step_dark' [OF _ 1] fold_step_white' [OF _ 2]
        fold_step_dark' [OF _ 3] fold_step_white' [OF _ 4] fold_step_dark' [OF _ 5])
qed

lemma findGaps_band_then_trailing:
  assumes "length rows = n" and "0 < a" and "a < b" and "b < c" and "c < n"
    and "\<forall>i<n. rows ! i = (a \<le> i \<and> i < b \<or> c \<le> i)"
  shows "findGaps rows H cfg = (if gapQualifies H cfg a b then [mkGap H cfg a b] else [])"
proof -
  have s: "[0..<n] = [0..<a] @ [a..<b] @ [b..<c] @ [c..<n]"
    using assms upt_split [of 0 a n] upt_split [of a b n] upt_split [of b c n] by simp
  have 1: "\<forall>i\<in>{0..<a}. \<not> rows ! i" using assms by auto
  have 2: "\<forall>i\<in>{a..<b}. rows ! i" using assms by auto
  have 3: "\<forall>i\<in>{b..<c}. \<not> rows ! i" using assms by auto
  have 4: "\<forall>i\<in>{c..<n}. rows ! i" using assms by auto
  show ?thesis
    using assms(1-5)
    by (simp add: findGaps_def s fold_step_dark' [OF _ 1] fold_step_white' [OF _ 2]
        fold_step_dark' [OF _ 3] fold_step_white' [OF _ 4])
qed


subsection \<open>Row classification\<close>

lemma fold_count:
  "fold (\<lambda>x n. if P x then n + 1 else n) xs (k::nat) = k + length (filter P xs)"
  by (induction xs arbitrary: k) auto

lemma analyzeRow_uniform:
  assumes "0 < width img" and "\<forall>x<width img. isWhitePx img y x = b"
  shows "analyzeRow img y = Some (if b then 1 else 0)"
proof -
  have "filter (isWhitePx img y) [0..<width img] = (if b then [0..<width img] else [])"
    using assms(2) by (auto simp: filter_empty_conv)
  then show ?thesis using assms(1) by (simp add: analyzeRow_def fold_count)
qed

lemma length_detectWhitespaceRows: "length (detectWhitespaceRows img cfg) = height_px img"
  by (simp add: detectWhitespaceRows_def)

lemma detectWhitespaceRows_uniform:
  assumes "0 < width img" and "y < height_px img" and "\<forall>x<width img. isWhitePx img y x = b"
    and "0 < whitespaceThreshold cfg" and "whitespaceThreshold cfg \<le> 1"
  shows "detectWhitespaceRows img cfg ! y = b"
  using assms analyzeRow_uniform [OF assms(1) assms(3)]
  by (simp add: detectWhitespaceRows_def)

lemma detectWhitespaceRows_uniform_page:
  assumes "\<forall>y<height_px img. \<forall>x<width img. isWhitePx img y x = b"
  shows "\<exists>r. \<forall>y<length (detectWhitespaceRows img cfg). detectWhitespaceRows img cfg ! y = r"
proof (cases "width img = 0")
  case True
  then have "\<forall>y<length (detectWhitespaceRows img cfg). detectWhitespaceRows img cfg ! y = False"
    by (simp add: detectWhitespaceRows_def analyzeRow_def)
  then show ?thesis by blast
next
  case False
  then have w: "0 < width img" by simp
  have "\<forall>y<length (detectWhitespaceRows img cfg).
          detectWhitespaceRows img cfg ! y = ((if b then 1 else 0) \<ge> whitespaceThreshold cfg)"
    using assms analyzeRow_uniform [OF w, of _ b]
    by (simp add: detectWhitespaceRows_def)
  then show ?thesis by blast
qed

lemma detectGaps_uniform_page:
  assumes "\<forall>y<height_px img. \<forall>x<width img. isWhitePx img y x = b"
  shows "detectGaps img cfg = []"
  using detectWhitespaceRows_uniform_page [OF assms, of cfg] findGaps_uniform
  unfolding detectGaps_def by blast

lemma detectGaps_sound:
  assumes "g \<in> set (detectGaps img cfg)"
  shows "\<exists>s e. g = mkGap (height_px img) cfg s e \<and> s < e \<and> e < height_px img \<and>
           gapQualifies (height_px img) cfg s e"
  using findGaps_sound [of g "detectWhitespaceRows img cfg" "height_px img" cfg] assms
  by (auto simp: detectGaps_def isRun_def length_detectWhitespaceRows)


lemma findCutPoints_detectGaps:
  "findCutPoints img T ov =
     (if detectGaps img (mergeConfig DEFAULT_CONFIG ov) = []
      then generateEvenCuts (height_px img) T
      else Some (selectFromGaps (height_px img) T (detectGaps img (mergeConfig DEFAULT_CONFIG ov))))"
  by (simp add: findCutPoints_def detectGaps_def Let_def)

lemma mergeConfig_no_overrides: "mergeConfig DEFAULT_CONFIG no_overrides = DEFAULT_CONFIG"
  by (simp add: mergeConfig_def no_overrides_def DEFAULT_CONFIG_def)

subsection \<open>The even fallback\<close>

lemma generateEvenCuts_loop_stop:
  "\<not> current < real H - T * 0.3 \<Longrightarrow> generateEvenCuts_loop H T cuts current = Some cuts"
  by (subst generateEvenCuts_loop.simps) simp

lemma generateEvenCuts_loop_step:
  "current < real H - T * 0.3 \<Longrightarrow>
     generateEvenCuts_loop H T cuts current =
       generateEvenCuts_loop H T (cuts @ [Math_round current]) (current + T)"
  by (subst generateEvenCuts_loop.simps) simp

lemma generateEvenCuts_loop_terminates:
  "0 < T \<Longrightarrow>
     \<exists>n. generateEvenCuts_loop H T cuts c =
            Some (cuts @ map (\<lambda>i. Math_round (c + real i * T)) [0..<n]) \<and>
         (\<forall>i<n. c + real i * T < real H - T * 0.3) \<and>
         \<not> c + real n * T < real H - T * 0.3"
proof (induction "nat \<lceil>(real H - T * 0.3 - c) / T\<rceil>" arbitrary: c cuts)
  case 0
  then have "\<lceil>(real H - T * 0.3 - c) / T\<rceil> \<le> 0" by simp
  then have "(real H - T * 0.3 - c) / T \<le> 0" by (simp add: ceiling_le_zero)
  then have stop: "\<not> c < real H - T * 0.3" using 0(2) by (simp add: divide_le_0_iff)
  then have "generateEvenCuts_loop H T cuts c = Some (cuts @ map (\<lambda>i. Math_round (c + real i * T)) [0..<0])"
    by (simp add: generateEvenCuts_loop_stop)
  then show ?case using stop by (intro exI [of _ 0]) simp
next
  case (Suc m)
  let ?x = "(real H - T * 0.3 - c) / T"
  from Suc(2) have pos: "0 < \<lceil>?x\<rceil>" by linarith
  then have "0 < ?x" by (simp add: ceiling_less_iff less_ceiling_iff)
  then have go: "c < real H - T * 0.3" using Suc(3) by (simp add: zero_less_divide_iff)
  have "(real H - T * 0.3 - (c + T)) / T = ?x - 1" using Suc(3) by (simp add: field_simps)
  then have "nat \<lceil>(real H - T * 0.3 - (c + T)) / T\<rceil> = nat (\<lceil>?x\<rceil> - 1)" by simp
  also have "\<dots> = m" using Suc(2) by linarith
  finally have m: "m = nat \<lceil>(real H - T * 0.3 - (c + T)) / T\<rceil>" by simp
  from Suc(1) [OF m Suc(3), of "cuts @ [Math_round c]"] obtain n where
    n: "generateEvenCuts_loop H T (cuts @ [Math_round c]) (c + T) =
          Some ((cuts @ [Math_round c]) @ map (\<lambda>i. Math_round (c + T + real i * T)) [0..<n])"
       "\<forall>i<n. c + T + real i * T < real H - T * 0.3"
       "\<not> c + T + real n * T < real H - T * 0.3"
    by blast
  have 1: "generateEvenCuts_loop H T cuts c =
      Some (cuts @ map (\<lambda>i. Math_round (c + real i * T)) [0..<Suc n])"
    using n(1) go by (simp add: generateEvenCuts_loop_step map_upt_Suc algebra_simps del: upt_Suc)
  have 2: "\<forall>i<Suc n. c + real i * T < real H - T * 0.3"
  proof (intro allI impI)
    fix i assume "i < Suc n"
    show "c + real i * T < real H - T * 0.3"
    proof (cases i)
      case 0
      then show ?thesis using go by simp
    next
      case (Suc j)
      then have "j < n" using \<open>i < Suc n\<close> by simp
      then show ?thesis using n(2) Suc by (simp add: algebra_simps)
    qed
  qed
  have 3: "\<not> c + real (Suc n) * T < real H - T * 0.3" using n(3) by (simp add: algebra_simps)
  show ?case using 1 2 3 by blast
qed

lemma generateEvenCuts_loop_diverges:
  assumes "T \<le> 0" and "c < real H - T * 0.3"
  shows "generateEvenCuts_loop H T cuts c = None"
proof (rule ccontr)
  assume "generateEvenCuts_loop H T cuts c \<noteq> None"
  then obtain r where r: "generateEvenCuts_loop H T cuts c = Some r" by auto
  have "\<not> (T \<le> 0 \<and> c < real H - T * 0.3)"
  proof (rule generateEvenCuts_loop.raw_induct
          [where P = "\<lambda>H T cuts c r. \<not> (T \<le> 0 \<and> c < real H - T * 0.3)", OF _ r],
         goal_cases)
    case (1 f H' T' cuts' c' y)
    show ?case
    proof
      assume a: "T' \<le> 0 \<and> c' < real H' - T' * 0.3"
      with 1(2) have "f H' T' (cuts' @ [Math_round c']) (c' + T') = Some y" by simp
      from 1(1) [OF this] a show False by simp
    qed
  qed
  then show False using assms by simp
qed

lemma generateEvenCuts_terminates_iff:
  "generateEvenCuts H T \<noteq> None \<longleftrightarrow> 0 < T \<or> (T = 0 \<and> H = 0)"
proof (cases "0 < T")
  case True
  then show ?thesis
    using generateEvenCuts_loop_terminates [of T H "[0]" T]
    by (auto simp: generateEvenCuts_def)
next
  case False
  show ?thesis
  proof (cases "T < real H - T * 0.3")
    case True
    then show ?thesis using False
      by (auto simp: generateEvenCuts_def generateEvenCuts_loop_diverges)
  next
    case stop: False
    then have "T = 0 \<and> H = 0" using False by (cases "H = 0") auto
    then show ?thesis using stop by (simp add: generateEvenCuts_def generateEvenCuts_loop_stop)
  qed
qed

lemma map_from_one: "map f [Suc 0..<Suc n] = map (\<lambda>i. f (Suc i)) [0..<n]"
proof -
  have "[Suc 0..<Suc n] = map Suc [0..<n]" using map_Suc_upt [of 0 n] by simp
  then show ?thesis by (simp add: comp_def)
qed

lemma Math_round_int [simp]: "Math_round (real_of_int z) = z"
  by (simp add: Math_round_def)









subsection \<open>The selection loop\<close>











subsection \<open>Buffers of solid rows\<close>

lemma nth_concat_uniform:
  "\<forall>xs\<in>set xss. length xs = n \<Longrightarrow> i < length xss \<Longrightarrow> j < n \<Longrightarrow>
     concat xss ! (i * n + j) = xss ! i ! j"
proof (induction xss arbitrary: i)
  case Nil
  then show ?case by simp
next
  case (Cons xs xss)
  show ?case
  proof (cases i)
    case 0
    then show ?thesis using Cons.prems by (simp add: nth_append)
  next
    case (Suc k)
    then have "concat (xs # xss) ! (i * n + j) = concat xss ! (k * n + j)"
      using Cons.prems by (simp add: nth_append)
    then show ?thesis using Cons Suc by simp
  qed
qed

lemma length_concat_uniform:
  "\<forall>xs\<in>set xss. length xs = n \<Longrightarrow> length (concat xss) = length xss * n"
  by (induction xss) auto

lemma solidRows_sel [simp]:
  "width (solidRows w h white) = w" "height_px (solidRows w h white) = h"
  by (simp_all add: solidRows_def)

lemma solidRows_px:
  assumes "x < w" and "y < h" and "c < 4"
  shows "data (solidRows w h white) ! (y * w * 4 + x * 4 + c) =
           (if white y then [255, 255, 255, 255] else [0, 0, 0, 255]) ! c"
    and "y * w * 4 + x * 4 + c < length (data (solidRows w h white))"
proof -
  let ?px = "\<lambda>i. if white (i div w) then [255, 255, 255, 255] else [0, 0, 0, 255::8 word]"
  let ?xss = "map ?px [0..<h * w]"
  have u: "\<forall>xs\<in>set ?xss. length xs = 4" by auto
  have "y * w + x < y * w + w" using assms(1) by simp
  also have "\<dots> = Suc y * w" by simp
  also have "\<dots> \<le> h * w" using assms(2) by (intro mult_le_mono1) simp
  finally have m: "y * w + x < h * w" .
  have d: "(y * w + x) div w = y" using assms(1) by simp
  have "concat ?xss ! ((y * w + x) * 4 + c) = ?xss ! (y * w + x) ! c"
    using nth_concat_uniform [OF u, of "y * w + x" c] m assms(3) by simp
  also have "\<dots> = ?px (y * w + x) ! c" using m by simp
  finally show "data (solidRows w h white) ! (y * w * 4 + x * 4 + c) =
           (if white y then [255, 255, 255, 255] else [0, 0, 0, 255]) ! c"
    using d by (simp add: solidRows_def algebra_simps)
  have "length (concat ?xss) = h * w * 4" using length_concat_uniform [OF u] by simp
  then show "y * w * 4 + x * 4 + c < length (data (solidRows w h white))"
    using m assms(3) by (simp add: solidRows_def)
qed

lemma solidRows_brightnessAt:
  assumes "x < w" and "y < h"
  shows "brightnessAt (data (solidRows w h white)) (y * w * 4 + x * 4) =
           Some (if white y then 1 else 0)"
proof -
  let ?d = "data (solidRows w h white)"
  let ?i = "y * w * 4 + x * 4"
  have 0: "?d ! ?i = (if white y then 255 else 0)"
    using solidRows_px(1) [OF assms, of 0 white] by simp
  have 1: "?d ! (?i + 1) = (if white y then 255 else 0)"
    using solidRows_px(1) [OF assms, of 1 white] by simp
  have 2: "?d ! (?i + 2) = (if white y then 255 else 0)"
    using solidRows_px(1) [OF assms, of 2 white] by simp
  have l: "?i + 2 < length ?d" using solidRows_px(2) [OF assms, of 2 white] by simp
  show ?thesis using 0 1 2 l by (simp add: brightnessAt_def)
qed

lemma solidRows_isWhitePx:
  assumes "x < w" and "y < h"
  shows "isWhitePx (solidRows w h white) y x = white y"
proof -
  let ?d = "data (solidRows w h white)"
  let ?i = "y * w * 4 + x * 4"
  have 0: "?d ! ?i = (if white y then 255 else 0)"
    using solidRows_px(1) [OF assms, of 0 white] by simp
  have 1: "?d ! (?i + 1) = (if white y then 255 else 0)"
    using solidRows_px(1) [OF assms, of 1 white] by simp
  have 2: "?d ! (?i + 2) = (if white y then 255 else 0)"
    using solidRows_px(1) [OF assms, of 2 white] by simp
  have l: "?i + 2 < length ?d" using solidRows_px(2) [OF assms, of 2 white] by simp
  have w: "width (solidRows w h white) = w" by (simp add: solidRows_def)
  show ?thesis using 0 1 2 l
    by (simp add: isWhitePx_def brightnessAt_def Let_def w)
qed

lemma solidRows_rows:
  assumes "0 < w" and "0 < whitespaceThreshold cfg" and "whitespaceThreshold cfg \<le> 1"
  shows "detectWhitespaceRows (solidRows w h white) cfg = map white [0..<h]"
proof (rule nth_equalityI)
  show "length (detectWhitespaceRows (solidRows w h white) cfg) = length (map white [0..<h])"
    by (simp add: length_detectWhitespaceRows solidRows_def)
next
  fix y assume "y < length (detectWhitespaceRows (solidRows w h white) cfg)"
  then have y: "y < h" by (simp add: length_detectWhitespaceRows solidRows_def)
  have "detectWhitespaceRows (solidRows w h white) cfg ! y = white y"
    using assms y solidRows_isWhitePx [of _ w y h white]
    by (intro detectWhitespaceRows_uniform) (simp_all add: solidRows_def)
  then show "detectWhitespaceRows (solidRows w h white) cfg ! y = map white [0..<h] ! y"
    using y by simp
qed

lemma solidRows_detectGaps:
  assumes "0 < w" and "0 < whitespaceThreshold cfg" and "whitespaceThreshold cfg \<le> 1"
  shows "detectGaps (solidRows w h white) cfg = findGaps (map white [0..<h]) h cfg"
  using solidRows_rows [OF assms] by (simp add: detectGaps_def solidRows_def)

lemma solidRows_one_band:
  assumes "0 < w" and "0 < whitespaceThreshold cfg" and "whitespaceThreshold cfg \<le> 1"
    and "0 < a" and "a < b" and "b < h"
  shows "detectGaps (solidRows w h (\<lambda>y. a \<le> y \<and> y < b)) cfg =
           (if gapQualifies h cfg a b then [mkGap h cfg a b] else [])"
  using assms findGaps_one_band [of "map (\<lambda>y. a \<le> y \<and> y < b) [0..<h]" h a b h cfg]
  by (simp add: solidRows_detectGaps)

lemma maximalRun_map:
  "maximalRun (map f [0..<n]) s e \<longleftrightarrow>
     s < e \<and> e \<le> n \<and> (\<forall>i\<in>{s..<e}. f i) \<and> (s = 0 \<or> \<not> f (s - 1)) \<and> (e = n \<or> \<not> f e)"
  by (auto simp: maximalRun_def)

subsection \<open>The test pages\<close>

lemma page_sel [simp]:
  "width (darkPage h) = 1" "height_px (darkPage h) = h"
  "width (whitePage h) = 1" "height_px (whitePage h) = h"
  "width (bandPage h a b) = 1" "height_px (bandPage h a b) = h"
  "width (twoBandPage h a b c d) = 1" "height_px (twoBandPage h a b c d) = h"
  by (simp_all add: darkPage_def whitePage_def bandPage_def twoBandPage_def)

lemma darkPage_brightnessAt:
  "y < h \<Longrightarrow> brightnessAt (data (darkPage h)) (y * 4) = Some 0"
  using solidRows_brightnessAt [of 0 1 y h "\<lambda>y. False"] by (simp add: darkPage_def)

lemma darkPage_detectGaps: "detectGaps (darkPage h) cfg = []"
  by (rule detectGaps_uniform_page [where b = False])
     (simp add: darkPage_def solidRows_isWhitePx)

lemma whitePage_isWhitePx: "y < h \<Longrightarrow> isWhitePx (whitePage h) y 0"
  by (simp add: whitePage_def solidRows_isWhitePx)

lemma twoBandPage_isWhitePx:
  "y < h \<Longrightarrow> isWhitePx (twoBandPage h a b c d) y 0 = (a \<le> y \<and> y < b \<or> c \<le> y \<and> y < d)"
  by (simp add: twoBandPage_def solidRows_isWhitePx)

lemma bandPage_detectGaps:
  assumes "0 < whitespaceThreshold cfg" and "whitespaceThreshold cfg \<le> 1"
    and "0 < a" and "a < b" and "b < h"
  shows "detectGaps (bandPage h a b) cfg =
           (if gapQualifies h cfg a b then [mkGap h cfg a b] else [])"
  using assms by (simp add: bandPage_def solidRows_one_band)

lemma maximalRun_bandRows:
  "maximalRun (bandRows h a b) s e \<longleftrightarrow>
     s < e \<and> e \<le> h \<and> (\<forall>i\<in>{s..<e}. a \<le> i \<and> i < b) \<and>
     (s = 0 \<or> \<not> (a \<le> s - 1 \<and> s - 1 < b)) \<and> (e = h \<or> \<not> (a \<le> e \<and> e < b))"
  unfolding bandRows_def maximalRun_map by simp

lemma maximalRun_twoBandRows:
  "maximalRun (twoBandRows h a b c d) s e \<longleftrightarrow>
     s < e \<and> e \<le> h \<and> (\<forall>i\<in>{s..<e}. a \<le> i \<and> i < b \<or> c \<le> i \<and> i < d) \<and>
     (s = 0 \<or> \<not> (a \<le> s - 1 \<and> s - 1 < b \<or> c \<le> s - 1 \<and> s - 1 < d)) \<and>
     (e = h \<or> \<not> (a \<le> e \<and> e < b \<or> c \<le> e \<and> e < d))"
  unfolding twoBandRows_def maximalRun_map by simp

lemma mergeConfig_strongBias:
  "mergeConfig DEFAULT_CONFIG strongBias =
     \<lparr>whitespaceThreshold = 0.95, minGapHeight = 0, edgeMargin = 0, centerBias = 10\<rparr>"
  by (simp add: mergeConfig_def strongBias_def DEFAULT_CONFIG_def)

section \<open>Properties\<close>




text \<open>
  The case that the amended statement leaves out: the page has a gap, no gap is accepted and
  \<open>H \<le> 0.3 * T\<close>. The final assignment \<open>cutPoints[cutPoints.length - 1] = height\<close> then
  overwrites the initial 0, and the result is the one-element list \<open>[H]\<close>. Here a page of
  height 200 with one white band of 20 rows centred at 100, and \<open>T = 1000\<close>.
\<close>

theorem short_page_loses_origin:
  "findCutPoints (bandPage 200 90 110) 1000 no_overrides = Some [200]"
proof -
  have "detectGaps (bandPage 200 90 110) DEFAULT_CONFIG = [mkGap 200 DEFAULT_CONFIG 90 110]"
    by (subst bandPage_detectGaps) (simp_all add: DEFAULT_CONFIG_def gapQualifies_def)
  then show ?thesis
    by (simp add: findCutPoints_detectGaps mergeConfig_no_overrides selectFromGaps_def
        cutStep_def cutBranch_def)
qed

text \<open>
  C2, as amended. For the degenerate input \<open>H = 0\<close> and every \<open>T \<ge> 0\<close>, \<open>findCutPoints\<close>
  returns the cut list \<open>[0, H]\<close>; and the even fallback \<open>generateEvenCuts\<close> returns at all
  exactly when \<open>T > 0\<close>, or \<open>T = 0\<close> and \<open>H = 0\<close>.
\<close>

theorem degenerate_inputs:
  "(height_px img = 0 \<and> 0 \<le> T \<longrightarrow> findCutPoints img T ov = Some [0, int (height_px img)]) \<and>
   (generateEvenCuts H T' \<noteq> None \<longleftrightarrow> 0 < T' \<or> T' = 0 \<and> H = 0)"
proof (intro conjI impI)
  assume a: "height_px img = 0 \<and> 0 \<le> T"
  then have "detectGaps img (mergeConfig DEFAULT_CONFIG ov) = []"
    by (simp add: detectGaps_def detectWhitespaceRows_def findGaps_def)
  moreover have "generateEvenCuts 0 T = Some [0, 0]"
    using a by (simp add: generateEvenCuts_def generateEvenCuts_loop_stop)
  ultimately show "findCutPoints img T ov = Some [0, int (height_px img)]"
    using a by (simp add: findCutPoints_detectGaps)
next
  show "generateEvenCuts H T' \<noteq> None \<longleftrightarrow> 0 < T' \<or> T' = 0 \<and> H = 0"
    by (rule generateEvenCuts_terminates_iff)
qed

theorem degenerate_inputs_witness:
  "height_px (darkPage 0) = 0 \<and> (0::real) \<le> 0 \<and>
   findCutPoints (darkPage 0) 0 no_overrides = Some [0, 0] \<and>
   generateEvenCuts 0 0 \<noteq> None \<and> generateEvenCuts 1 0 = None"
  using degenerate_inputs [of "darkPage 0" 0 no_overrides 0 0]
    degenerate_inputs [of "darkPage 0" 0 no_overrides 1 0]
  by simp

text \<open>
  The claim as it was stated fails for \<open>T = 0\<close> on a dark page of height 1: the loop of
  the even fallback never ends, so nothing is returned.
\<close>

theorem degenerate_inputs_counterexample:
  "(0::real) \<le> 0 \<and> findCutPoints (darkPage 1) 0 no_overrides = None"
proof -
  have "generateEvenCuts 1 0 = None"
    by (simp add: generateEvenCuts_def generateEvenCuts_loop_diverges)
  then show ?thesis by (simp add: findCutPoints_detectGaps darkPage_detectGaps)
qed




text \<open>
  C4. For every target slice height \<open>T > 0\<close>, every last cut and every gap, the second arm
  of the selector (distance at least \<open>1.0 * T\<close> and score above \<open>0.2\<close>) is never taken:
  whenever its distance condition holds, the first arm (distance at least \<open>0.5 * T\<close>)
  has accepted the gap already.
\<close>

theorem forced_branch_unreachable:
  "0 < T \<Longrightarrow>
     cutBranch T lastCut gap \<noteq> ForcedAccept \<and>
     (centerY gap - lastCut \<ge> T * 1.0 \<longrightarrow> cutBranch T lastCut gap = PrimaryAccept)"
  by (simp add: cutBranch_def Let_def)

theorem forced_branch_unreachable_witness:
  "(0::real) < 350 \<and>
   cutBranch 350 0 (mkGap 1000 DEFAULT_CONFIG 690 710) \<noteq> ForcedAccept \<and>
   centerY (mkGap 1000 DEFAULT_CONFIG 690 710) - 0 \<ge> 350 * 1.0 \<and>
   cutBranch 350 0 (mkGap 1000 DEFAULT_CONFIG 690 710) = PrimaryAccept"
  using forced_branch_unreachable [of 350 0 "mkGap 1000 DEFAULT_CONFIG 690 710"]
  by (simp add: mkGap_def)

text \<open>
  C5. For a buffer 1000 rows tall in which exactly the rows 290 to 309 and 690 to 709 (two
  bands of 20 rows centred at 300 and 700) consist of white pixels over the full width and
  every pixel of every other row is not white, with target slice height 350 and the default
  configuration, \<open>findCutPoints\<close> returns exactly \<open>[0, 300, 700, 1000]\<close>.
\<close>

theorem scenario_B:
  assumes "height_px img = 1000" and "0 < width img"
    and "\<forall>y<1000. \<forall>x<width img.
           isWhitePx img y x = (290 \<le> y \<and> y < 310 \<or> 690 \<le> y \<and> y < 710)"
  shows "findCutPoints img 350 no_overrides = Some [0, 300, 700, 1000]"
proof -
  let ?rows = "detectWhitespaceRows img DEFAULT_CONFIG"
  have len: "length ?rows = 1000" using assms(1) by (simp add: length_detectWhitespaceRows)
  have rows: "\<forall>i<1000. ?rows ! i = (290 \<le> i \<and> i < 310 \<or> 690 \<le> i \<and> i < 710)"
  proof (intro allI impI)
    fix i :: nat assume i: "i < 1000"
    show "?rows ! i = (290 \<le> i \<and> i < 310 \<or> 690 \<le> i \<and> i < 710)"
      using assms i by (intro detectWhitespaceRows_uniform) (simp_all add: DEFAULT_CONFIG_def)
  qed
  have "findGaps ?rows 1000 DEFAULT_CONFIG =
          [mkGap 1000 DEFAULT_CONFIG 290 310, mkGap 1000 DEFAULT_CONFIG 690 710]"
    by (subst findGaps_two_bands [OF len _ _ _ _ _ rows])
       (simp_all add: gapQualifies_def DEFAULT_CONFIG_def)
  then have "detectGaps img DEFAULT_CONFIG =
          [mkGap 1000 DEFAULT_CONFIG 290 310, mkGap 1000 DEFAULT_CONFIG 690 710]"
    using assms(1) by (simp add: detectGaps_def)
  then show ?thesis using assms(1)
    by (simp add: findCutPoints_detectGaps mergeConfig_no_overrides selectFromGaps_def
        cutStep_def cutBranch_def Math_round_def)
qed

theorem scenario_B_witness:
  "height_px (twoBandPage 1000 290 310 690 710) = 1000 \<and>
   0 < width (twoBandPage 1000 290 310 690 710) \<and>
   findCutPoints (twoBandPage 1000 290 310 690 710) 350 no_overrides =
     Some [0, 300, 700, 1000]"
  using scenario_B [of "twoBandPage 1000 290 310 690 710"]
  by (simp add: twoBandPage_isWhitePx)

text \<open>
  C6, as amended. For every pixel buffer in which every pixel has brightness 0, every
  configuration and every target slice height \<open>T > 0\<close> that is a whole number: the detector
  returns the empty gap list, and \<open>findCutPoints\<close> returns 0, then the cuts
  \<open>T, 2 * T, ..., n * T\<close>, then \<open>H\<close>; here \<open>n * T\<close> is the last position whose distance
  to \<open>H\<close> is above \<open>0.3 * T\<close>.
\<close>

theorem even_fallback:
  assumes "0 < t"
    and "\<forall>y<height_px img. \<forall>x<width img.
           brightnessAt (data img) (y * width img * 4 + x * 4) = Some 0"
  shows "detectGaps img cfg = [] \<and>
         (\<exists>n. findCutPoints img (real_of_int t) ov =
                 Some (0 # map (\<lambda>k. int k * t) [1..<Suc n] @ [int (height_px img)]) \<and>
              (\<forall>k\<in>{1..n}.
                 real (height_px img) - real_of_int (int k * t) > real_of_int t * 0.3) \<and>
              real (height_px img) - real_of_int (int (Suc n) * t) \<le> real_of_int t * 0.3)"
proof
  have dark: "\<forall>y<height_px img. \<forall>x<width img. isWhitePx img y x = False"
    using assms(2) by (simp add: isWhitePx_def Let_def)
  show "detectGaps img cfg = []" by (rule detectGaps_uniform_page [OF dark])
  define T where "T = real_of_int t"
  have T: "0 < T" using assms(1) by (simp add: T_def)
  have fb: "findCutPoints img T ov = generateEvenCuts (height_px img) T"
    using detectGaps_uniform_page [OF dark] by (simp add: findCutPoints_detectGaps)
  let ?H = "height_px img"
  from generateEvenCuts_loop_terminates [OF T, of ?H "[0]" T] obtain n where
    n: "generateEvenCuts_loop ?H T [0] T =
          Some ([0] @ map (\<lambda>i. Math_round (T + real i * T)) [0..<n])"
       "\<forall>i<n. T + real i * T < real ?H - T * 0.3"
       "\<not> T + real n * T < real ?H - T * 0.3"
    by blast
  have r: "Math_round (T + real i * T) = int (Suc i) * t" for i
  proof -
    have "T + real i * T = real_of_int (int (Suc i) * t)" by (simp add: T_def algebra_simps)
    then show ?thesis by (simp only: Math_round_int)
  qed
  have 1: "findCutPoints img T ov =
             Some (0 # map (\<lambda>k. int k * t) [1..<Suc n] @ [int ?H])"
  proof -
    have m: "map (\<lambda>k. int k * t) [1..<Suc n] =
             map (\<lambda>i. Math_round (T + real i * T)) [0..<n]"
      unfolding r by (simp add: map_from_one del: upt_Suc)
    show ?thesis unfolding fb generateEvenCuts_def n(1) m by simp
  qed
  have 2: "\<forall>k\<in>{1..n}. real ?H - real_of_int (int k * t) > T * 0.3"
  proof
    fix k assume "k \<in> {1..n}"
    then obtain i where k: "k = Suc i" and i: "i < n" by (cases k) auto
    from n(2) i have "T + real i * T < real ?H - T * 0.3" by blast
    then show "real ?H - real_of_int (int k * t) > T * 0.3"
      by (simp add: k T_def algebra_simps)
  qed
  have 3: "real ?H - real_of_int (int (Suc n) * t) \<le> T * 0.3"
    using n(3) by (simp add: T_def algebra_simps)
  show "\<exists>n. findCutPoints img (real_of_int t) ov =
                 Some (0 # map (\<lambda>k. int k * t) [1..<Suc n] @ [int ?H]) \<and>
              (\<forall>k\<in>{1..n}. real ?H - real_of_int (int k * t) > real_of_int t * 0.3) \<and>
              real ?H - real_of_int (int (Suc n) * t) \<le> real_of_int t * 0.3"
    using 1 2 3 unfolding T_def by blast
qed

theorem even_fallback_witness:
  "(0::int) < 3 \<and> detectGaps (darkPage 10) DEFAULT_CONFIG = [] \<and>
   findCutPoints (darkPage 10) (real_of_int 3) no_overrides = Some [0, 3, 6, 9, 10] \<and>
   real (height_px (darkPage 10)) - real_of_int (int 3 * 3) > real_of_int 3 * 0.3 \<and>
   real (height_px (darkPage 10)) - real_of_int (int (Suc 3) * 3) \<le> real_of_int 3 * 0.3"
proof -
  have h: "\<forall>y<height_px (darkPage 10). \<forall>x<width (darkPage 10).
             brightnessAt (data (darkPage 10)) (y * width (darkPage 10) * 4 + x * 4) = Some 0"
    by (simp add: darkPage_brightnessAt)
  have t: "(0::int) < 3" by simp
  from even_fallback [OF t h, of DEFAULT_CONFIG no_overrides]
  have d: "detectGaps (darkPage 10) DEFAULT_CONFIG = []" by blast
  have "generateEvenCuts_loop 10 3 [0] 3 = Some [0, 3, 6, 9]"
    by (simp add: generateEvenCuts_loop_step generateEvenCuts_loop_stop Math_round_def)
  then have "generateEvenCuts 10 3 = Some [0, 3, 6, 9, 10]" by (simp add: generateEvenCuts_def)
  then have "findCutPoints (darkPage 10) (real_of_int 3) no_overrides = Some [0, 3, 6, 9, 10]"
    by (simp add: findCutPoints_detectGaps darkPage_detectGaps)
  then show ?thesis using d by simp
qed

text \<open>
  The claim as it was stated (cuts at \<open>T, 2 * T, ...\<close>) fails for a fractional target: on a
  dark page of height 10 with \<open>T = 5/2\<close> the cuts are 3, 5 and 8, not 2.5, 5 and 7.5.
\<close>

theorem even_fallback_counterexample:
  "(0::real) < 5 / 2 \<and>
   findCutPoints (darkPage 10) (5 / 2) no_overrides = Some [0, 3, 5, 8, 10] \<and>
   map real_of_int [0, 3, 5, 8, 10] \<noteq> [0, 5 / 2, 2 * (5 / 2), 3 * (5 / 2), 10]"
proof -
  have "generateEvenCuts_loop 10 (5 / 2) [0] (5 / 2) = Some [0, 3, 5, 8]"
    by (simp add: generateEvenCuts_loop_step generateEvenCuts_loop_stop Math_round_def)
  then have "generateEvenCuts 10 (5 / 2) = Some [0, 3, 5, 8, 10]"
    by (simp add: generateEvenCuts_def)
  then show ?thesis by (simp add: findCutPoints_detectGaps darkPage_detectGaps)
qed

text \<open>
  C7, as amended. For every pixel buffer and every configuration with
  \<open>whitespaceThreshold\<close> in \<open>[0, 1]\<close>, \<open>minGapHeight \<ge> 0\<close>, \<open>edgeMargin \<ge> 0\<close> and
  \<open>centerBias\<close> in \<open>[0, 2]\<close>, every gap that the detector produces has its score in the
  interval \<open>(0, 1]\<close>.
\<close>

theorem score_range:
  assumes "0 \<le> whitespaceThreshold cfg" and "whitespaceThreshold cfg \<le> 1"
    and "0 \<le> minGapHeight cfg" and "0 \<le> edgeMargin cfg"
    and "0 \<le> centerBias cfg" and "centerBias cfg \<le> 2"
    and "g \<in> set (detectGaps img cfg)"
  shows "0 < score g \<and> score g \<le> 1"
proof -
  let ?H = "height_px img"
  from detectGaps_sound [OF assms(7)] obtain s e where
    g: "g = mkGap ?H cfg s e" and se: "s < e" and q: "gapQualifies ?H cfg s e" by blast
  define c where "c = real s + real (e - s) / 2"
  define a where "a = min (real (e - s) / 50) 1"
  define d where "d = \<bar>c / real ?H - 0.5\<bar>"
  from q assms(4) have c: "0 < c" "c < real ?H" by (simp_all add: gapQualifies_def Let_def c_def)
  then have "0 < c / real ?H" "c / real ?H < 1" by simp_all
  then have d: "0 \<le> d" "d < 1 / 2" unfolding d_def by linarith+
  have a: "0 < a" "a \<le> 1" using se by (simp_all add: a_def)
  have "d * centerBias cfg \<le> d * 2" using assms(6) d(1) by (intro mult_left_mono)
  then have b1: "0 < 1 - d * centerBias cfg" using d(2) by linarith
  have "0 \<le> d * centerBias cfg" using assms(5) d(1) by simp
  then have b2: "1 - d * centerBias cfg \<le> 1" by simp
  have sc: "score g = a * (1 - d * centerBias cfg)" by (simp add: g a_def d_def c_def)
  have "0 < a * (1 - d * centerBias cfg)" using a(1) b1 by simp
  moreover have "a * (1 - d * centerBias cfg) \<le> 1" using a b1 b2 by (simp add: mult_le_one)
  ultimately show ?thesis using sc by simp
qed

theorem score_range_witness:
  "0 \<le> whitespaceThreshold DEFAULT_CONFIG \<and> whitespaceThreshold DEFAULT_CONFIG \<le> 1 \<and>
   0 \<le> minGapHeight DEFAULT_CONFIG \<and> 0 \<le> edgeMargin DEFAULT_CONFIG \<and>
   0 \<le> centerBias DEFAULT_CONFIG \<and> centerBias DEFAULT_CONFIG \<le> 2 \<and>
   mkGap 200 DEFAULT_CONFIG 90 110 \<in> set (detectGaps (bandPage 200 90 110) DEFAULT_CONFIG) \<and>
   0 < score (mkGap 200 DEFAULT_CONFIG 90 110) \<and> score (mkGap 200 DEFAULT_CONFIG 90 110) \<le> 1"
proof -
  have c: "0 \<le> whitespaceThreshold DEFAULT_CONFIG" "whitespaceThreshold DEFAULT_CONFIG \<le> 1"
    "0 \<le> minGapHeight DEFAULT_CONFIG" "0 \<le> edgeMargin DEFAULT_CONFIG"
    "0 \<le> centerBias DEFAULT_CONFIG" "centerBias DEFAULT_CONFIG \<le> 2"
    by (simp_all add: DEFAULT_CONFIG_def)
  have g: "mkGap 200 DEFAULT_CONFIG 90 110 \<in>
             set (detectGaps (bandPage 200 90 110) DEFAULT_CONFIG)"
    by (subst bandPage_detectGaps) (simp_all add: DEFAULT_CONFIG_def gapQualifies_def)
  from score_range [OF c g] c g show ?thesis by blast
qed

text \<open>
  The claim as it was stated (any \<open>centerBias \<ge> 0\<close>) fails for \<open>centerBias = 10\<close>: on a page
  of height 100 with one white band of 10 rows centred at 10, with \<open>minGapHeight = 0\<close> and
  \<open>edgeMargin = 0\<close>, the only gap has the score \<open>0.2 * (1 - 0.4 * 10) = - 0.6\<close>.
\<close>

theorem score_range_counterexample:
  "0 \<le> whitespaceThreshold (mergeConfig DEFAULT_CONFIG strongBias) \<and>
   whitespaceThreshold (mergeConfig DEFAULT_CONFIG strongBias) \<le> 1 \<and>
   0 \<le> minGapHeight (mergeConfig DEFAULT_CONFIG strongBias) \<and>
   0 \<le> edgeMargin (mergeConfig DEFAULT_CONFIG strongBias) \<and>
   0 \<le> centerBias (mergeConfig DEFAULT_CONFIG strongBias) \<and>
   map score (detectGaps (bandPage 100 5 15) (mergeConfig DEFAULT_CONFIG strongBias)) =
     [- 3 / 5]"
proof -
  let ?cfg = "\<lparr>whitespaceThreshold = 0.95, minGapHeight = 0, edgeMargin = 0, centerBias = 10\<rparr>"
  have "detectGaps (bandPage 100 5 15) ?cfg = [mkGap 100 ?cfg 5 15]"
    by (subst bandPage_detectGaps) (simp_all add: gapQualifies_def)
  then show ?thesis unfolding mergeConfig_strongBias by simp
qed



text \<open>
  C9. With \<open>edgeMargin = 50\<close>, no gap of the detector's list meets a maximal run of
  whitespace rows whose centre lies at \<open>y = 10\<close>, whatever the height of the run.
\<close>

theorem edge_margin_exclusion:
  assumes "edgeMargin cfg = 50" and "maximalRun rows s e" and "real s + real (e - s) / 2 = 10"
  shows "\<forall>g\<in>set (findGaps rows H cfg). endY g \<le> s \<or> e \<le> startY g"
proof -
  have "\<not> gapQualifies H cfg s e" using assms(1,3) by (simp add: gapQualifies_def Let_def)
  then show ?thesis by (intro run_not_in_gaps [OF assms(2)]) simp
qed

theorem edge_margin_exclusion_witness:
  "edgeMargin DEFAULT_CONFIG = 50 \<and> maximalRun (bandRows 200 2 18) 2 18 \<and>
   real 2 + real (18 - 2) / 2 = 10 \<and>
   list_all (\<lambda>g. endY g \<le> 2 \<or> 18 \<le> startY g)
     (findGaps (bandRows 200 2 18) 200 DEFAULT_CONFIG)"
proof -
  have c: "edgeMargin DEFAULT_CONFIG = 50" by (simp add: DEFAULT_CONFIG_def)
  have r: "maximalRun (bandRows 200 2 18) 2 18" unfolding maximalRun_bandRows by auto
  have m: "real 2 + real (18 - 2) / 2 = 10" by simp
  from edge_margin_exclusion [OF c r m, of 200] c r m show ?thesis
    unfolding list_all_iff by blast
qed

text \<open>
  C10. For every row classification and every configuration, every gap of the detector's
  list ends before a maximal run of whitespace rows that extends to the last row of the
  page: that run produces no gap. Consequently, on a page whose pixels are all white the
  gap list is empty and \<open>findCutPoints\<close> returns what the even fallback returns.
\<close>

theorem trailing_run_no_gap:
  "(maximalRun rows s (length rows) \<longrightarrow> (\<forall>g\<in>set (findGaps rows H cfg). endY g \<le> s)) \<and>
   ((\<forall>y<height_px img. \<forall>x<width img. isWhitePx img y x) \<longrightarrow>
      detectGaps img (mergeConfig DEFAULT_CONFIG ov) = [] \<and>
      findCutPoints img T ov = generateEvenCuts (height_px img) T)"
proof (intro conjI impI)
  assume m: "maximalRun rows s (length rows)"
  show "\<forall>g\<in>set (findGaps rows H cfg). endY g \<le> s"
  proof
    fix g assume g: "g \<in> set (findGaps rows H cfg)"
    from findGaps_sound [OF g] have "endY g < length rows" by (auto simp: isRun_def)
    moreover have "endY g \<le> s \<or> length rows \<le> startY g"
      using run_not_in_gaps [OF m, of H cfg] g by simp
    moreover from findGaps_sound [OF g] have "startY g < endY g" by (auto simp: isRun_def)
    ultimately show "endY g \<le> s" by linarith
  qed
next
  assume "\<forall>y<height_px img. \<forall>x<width img. isWhitePx img y x"
  then have "\<forall>y<height_px img. \<forall>x<width img. isWhitePx img y x = True" by simp
  from detectGaps_uniform_page [OF this]
  show e: "detectGaps img (mergeConfig DEFAULT_CONFIG ov) = []" .
  then show "findCutPoints img T ov = generateEvenCuts (height_px img) T"
    by (simp add: findCutPoints_detectGaps)
qed

theorem trailing_run_no_gap_witness:
  "maximalRun (twoBandRows 200 60 80 90 200) 90 (length (twoBandRows 200 60 80 90 200)) \<and>
   gapQualifies 200 DEFAULT_CONFIG 90 200 \<and>
   findGaps (twoBandRows 200 60 80 90 200) 200 DEFAULT_CONFIG =
     [mkGap 200 DEFAULT_CONFIG 60 80] \<and>
   list_all (\<lambda>g. endY g \<le> 90) (findGaps (twoBandRows 200 60 80 90 200) 200 DEFAULT_CONFIG) \<and>
   gapQualifies 200 DEFAULT_CONFIG 0 200 \<and>
   detectGaps (whitePage 200) (mergeConfig DEFAULT_CONFIG no_overrides) = [] \<and>
   findCutPoints (whitePage 200) 50 no_overrides =
     generateEvenCuts (height_px (whitePage 200)) 50 \<and>
   generateEvenCuts 200 50 = Some [0, 50, 100, 150, 200]"
proof -
  let ?rows = "twoBandRows 200 60 80 90 200"
  have r: "maximalRun ?rows 90 (length ?rows)"
    unfolding maximalRun_twoBandRows by (auto simp: twoBandRows_def)
  have q: "gapQualifies 200 DEFAULT_CONFIG 90 200" "gapQualifies 200 DEFAULT_CONFIG 0 200"
    "gapQualifies 200 DEFAULT_CONFIG 60 80"
    by (simp_all add: gapQualifies_def DEFAULT_CONFIG_def)
  have "findGaps ?rows 200 DEFAULT_CONFIG =
          (if gapQualifies 200 DEFAULT_CONFIG 60 80 then [mkGap 200 DEFAULT_CONFIG 60 80] else [])"
    by (rule findGaps_band_then_trailing [where n = 200 and c = 90])
       (auto simp: twoBandRows_def)
  then have f: "findGaps ?rows 200 DEFAULT_CONFIG = [mkGap 200 DEFAULT_CONFIG 60 80]"
    using q(3) by simp
  have w: "\<forall>y<height_px (whitePage 200). \<forall>x<width (whitePage 200).
             isWhitePx (whitePage 200) y x"
    by (simp add: whitePage_isWhitePx)
  have "generateEvenCuts_loop 200 50 [0] 50 = Some [0, 50, 100, 150]"
    by (simp add: generateEvenCuts_loop_step generateEvenCuts_loop_stop Math_round_def)
  then have e: "generateEvenCuts 200 50 = Some [0, 50, 100, 150, 200]"
    by (simp add: generateEvenCuts_def)
  from trailing_run_no_gap
         [of ?rows 90 200 DEFAULT_CONFIG "whitePage 200" no_overrides 50] r w q f e
  show ?thesis unfolding list_all_iff by blast
qed

end
